theory Spec2Isabelle
  imports Complex_Main
begin

section \<open>Engagement classifier (apps/web/src/lib/cv/engagementEngine.ts)\<close>

text \<open>
  Timestamps, durations, ratios and the confidence are modelled as exact \<open>real\<close>s.
  The score and the two configuration fields it is computed from (\<open>baselineScore\<close> and
  \<open>stateWeights\<close>) are \<open>jsnum\<close>s, which have \<open>NaN\<close> and the two infinities beside the
  finite numbers. Array lengths and loop counters are \<open>nat\<close>, the results of
  \<open>Math.floor\<close> and \<open>Math.round\<close> on finite numbers are \<open>int\<close>. A \<open>Date\<close> is its
  \<open>getTime()\<close> value, an \<open>int\<close> of milliseconds.
\<close>

subsection \<open>Numbers with \<open>NaN\<close> and infinities\<close>

datatype jsnum = Finite real | PosInf | NegInf | NaN

text \<open>\<open>+\<close> on numbers: \<open>NaN\<close> is absorbing and the sum of the two infinities is \<open>NaN\<close>.
  The sum of two finite numbers is taken exactly; overflow to an infinity is not
  modelled.\<close>

fun js_add :: "jsnum \<Rightarrow> jsnum \<Rightarrow> jsnum" where
  "js_add NaN _ = NaN"
| "js_add _ NaN = NaN"
| "js_add PosInf NegInf = NaN"
| "js_add NegInf PosInf = NaN"
| "js_add PosInf _ = PosInf"
| "js_add _ PosInf = PosInf"
| "js_add NegInf _ = NegInf"
| "js_add _ NegInf = NegInf"
| "js_add (Finite a) (Finite b) = Finite (a + b)"

text \<open>\<open>Math.round\<close> on a real: the nearest integer, a tie going up.\<close>

definition js_round :: "real \<Rightarrow> int" where
  "js_round x = \<lfloor>x + 1 / 2\<rfloor>"

text \<open>\<open>Math.round\<close>, \<open>Math.min\<close> and \<open>Math.max\<close> on numbers: \<open>Math.round\<close> returns
  \<open>NaN\<close> and the infinities as they are; \<open>Math.min\<close> and \<open>Math.max\<close> return \<open>NaN\<close>
  when an argument is \<open>NaN\<close>.\<close>

fun Math_round :: "jsnum \<Rightarrow> jsnum" where
  "Math_round (Finite x) = Finite (of_int (js_round x))"
| "Math_round n = n"

fun Math_min :: "jsnum \<Rightarrow> jsnum \<Rightarrow> jsnum" where
  "Math_min NaN _ = NaN"
| "Math_min _ NaN = NaN"
| "Math_min NegInf _ = NegInf"
| "Math_min _ NegInf = NegInf"
| "Math_min PosInf b = b"
| "Math_min a PosInf = a"
| "Math_min (Finite a) (Finite b) = Finite (min a b)"

fun Math_max :: "jsnum \<Rightarrow> jsnum \<Rightarrow> jsnum" where
  "Math_max NaN _ = NaN"
| "Math_max _ NaN = NaN"
| "Math_max PosInf _ = PosInf"
| "Math_max _ PosInf = PosInf"
| "Math_max NegInf b = b"
| "Math_max a NegInf = a"
| "Math_max (Finite a) (Finite b) = Finite (max a b)"

subsection \<open>Double arithmetic\<close>

text \<open>
  The result of a division or multiplication of two doubles is the exact result rounded
  to the nearest double, a tie going to the even significand. \<open>dbl\<close> is that rounding for
  a significand of 53 bits; the exponent is not bounded, so overflow and subnormal
  numbers are not modelled.
\<close>

definition roundTiesToEven :: "real \<Rightarrow> int" where
  "roundTiesToEven x =
     (let f = \<lfloor>x\<rfloor>
      in if x - of_int f < 1 / 2 then f
         else if 1 / 2 < x - of_int f then f + 1
         else if even f then f else f + 1)"

definition dbl :: "real \<Rightarrow> real" where
  "dbl x =
     (if x = 0 then 0
      else (let u = 2 powr (of_int \<lfloor>log 2 \<bar>x\<bar>\<rfloor> - 52)
            in of_int (roundTiesToEven (x / u)) * u))"

subsection \<open>The engine\<close>

datatype EngagementState = Engaged | Distracted | Sleepy | Away

record EngagementMetrics =
  state :: EngagementState
  score :: jsnum
  confidence :: real
  timestamp :: real

record EngagementConfig =
  eyeClosedDuration :: real
  yawnDuration :: real
  lookAwayDuration :: real
  baselineScore :: jsnum
  stateWeights :: "EngagementState \<Rightarrow> jsnum"

text \<open>The fields of \<open>CVMetrics\<close> and \<open>HandMetrics\<close> that the engine reads.\<close>

record CVMetrics =
  facePresent :: bool
  eyesClosed :: bool
  yawning :: bool
  lookingAway :: bool
  expressionLabel :: string
  eyeAspectRatio :: real
  mouthOpenRatio :: real

record HandMetrics =
  handsPresent :: bool
  handsFidgeting :: bool
  handOverFace :: bool
  fidgetingIntensity :: real

text \<open>\<open>StateHistory\<close>: four optional start timestamps, \<open>None\<close> for \<open>undefined\<close>.\<close>

record StateHistory =
  eyesClosedStart :: "real option"
  yawnStart :: "real option"
  lookAwayStart :: "real option"
  faceAbsentStart :: "real option"

record EngagementEngine =
  config :: EngagementConfig
  stateHistory :: StateHistory
  scoreHistory :: "jsnum list"

definition maxHistoryLength :: nat where
  "maxHistoryLength = 30"

text \<open>The configuration the constructor builds when it is given no argument.\<close>

definition defaultConfig :: EngagementConfig where
  "defaultConfig = \<lparr> eyeClosedDuration = 1, yawnDuration = 1, lookAwayDuration = 1,
     baselineScore = Finite 70,
     stateWeights = (\<lambda>s. case s of Engaged \<Rightarrow> Finite 10 | Distracted \<Rightarrow> Finite (- 15)
                              | Sleepy \<Rightarrow> Finite (- 25) | Away \<Rightarrow> Finite (- 20)) \<rparr>"

definition newEngine :: "EngagementConfig \<Rightarrow> EngagementEngine" where
  "newEngine c = \<lparr> config = c,
     stateHistory = \<lparr> eyesClosedStart = None, yawnStart = None,
                      lookAwayStart = None, faceAbsentStart = None \<rparr>,
     scoreHistory = [] \<rparr>"

text \<open>
  JavaScript truthiness of an optional number, as tested by \<open>!this.stateHistory.x\<close> and
  by \<open>this.stateHistory.x ? \<dots> : 0\<close>: \<open>undefined\<close> and \<open>0\<close> are both falsy.
\<close>

fun truthy :: "real option \<Rightarrow> bool" where
  "truthy None = False"
| "truthy (Some x) = (x \<noteq> 0)"

text \<open>One of the four blocks of \<open>updateStateHistory\<close>: arm the timer when the condition
  holds and the stored start is falsy, clear it when the condition does not hold.\<close>

definition track :: "bool \<Rightarrow> real option \<Rightarrow> real \<Rightarrow> real option" where
  "track cond start ts =
     (if cond then (if \<not> truthy start then Some ts else start) else None)"

definition updateStateHistory :: "StateHistory \<Rightarrow> CVMetrics \<Rightarrow> real \<Rightarrow> StateHistory" where
  "updateStateHistory h cv ts =
     \<lparr> eyesClosedStart = track (eyesClosed cv) (eyesClosedStart h) ts,
       yawnStart = track (yawning cv) (yawnStart h) ts,
       lookAwayStart = track (lookingAway cv) (lookAwayStart h) ts,
       faceAbsentStart = track (\<not> facePresent cv) (faceAbsentStart h) ts \<rparr>"

text \<open>The ternary \<open>start ? (timestamp - start) / 1000 : 0\<close> that
  \<open>determineEngagementState\<close> evaluates for each timer.\<close>

definition elapsedSec :: "real option \<Rightarrow> real \<Rightarrow> real" where
  "elapsedSec start ts = (if truthy start then (ts - the start) / 1000 else 0)"

definition isNegativeExpression :: "string \<Rightarrow> bool" where
  "isNegativeExpression expression \<longleftrightarrow>
     expression \<in> set [''sad'', ''angry'', ''fearful'', ''disgusted'', ''surprised'']"

definition determineEngagementState ::
  "EngagementConfig \<Rightarrow> StateHistory \<Rightarrow> CVMetrics \<Rightarrow> HandMetrics \<Rightarrow> real \<Rightarrow> EngagementState" where
  "determineEngagementState c h cv hm ts =
     (if \<not> facePresent cv \<and> elapsedSec (faceAbsentStart h) ts \<ge> 2 then Away
      else if elapsedSec (eyesClosedStart h) ts \<ge> eyeClosedDuration c
              \<or> elapsedSec (yawnStart h) ts \<ge> yawnDuration c then Sleepy
      else if elapsedSec (lookAwayStart h) ts \<ge> lookAwayDuration c
              \<or> handsFidgeting hm \<or> handOverFace hm
              \<or> isNegativeExpression (expressionLabel cv) then Distracted
      else if facePresent cv \<and> \<not> lookingAway cv \<and> \<not> eyesClosed cv then Engaged
      else Distracted)"

text \<open>\<open>score += k\<close> and \<open>score -= k\<close> are \<open>js_add\<close> of \<open>k\<close> and of \<open>- k\<close>.\<close>

definition calculateEngagementScore ::
  "EngagementConfig \<Rightarrow> EngagementState \<Rightarrow> CVMetrics \<Rightarrow> HandMetrics \<Rightarrow> jsnum" where
  "calculateEngagementScore c st cv hm =
     (let s0 = js_add (baselineScore c) (stateWeights c st);
          s1 = (if facePresent cv then js_add s0 (Finite 5) else s0);
          s2 = (if expressionLabel cv = ''happy'' \<or> expressionLabel cv = ''neutral''
                then js_add s1 (Finite 5) else s1);
          s3 = (if handsFidgeting hm then js_add s2 (Finite (- 10)) else s2);
          s4 = (if handOverFace hm then js_add s3 (Finite (- 15)) else s3);
          s5 = (if eyeAspectRatio cv < 15 / 100 then js_add s4 (Finite (- 20)) else s4);
          s6 = (if mouthOpenRatio cv > 8 / 10 then js_add s5 (Finite (- 15)) else s5)
      in Math_max (Finite 0) (Math_min (Finite 100) (Math_round s6)))"

definition calculateConfidence :: "CVMetrics \<Rightarrow> HandMetrics \<Rightarrow> real" where
  "calculateConfidence cv hm =
     (let c0 = 5 / 10;
          c1 = (if facePresent cv then c0 + 3 / 10 else c0);
          c2 = (if eyeAspectRatio cv > 0 then c1 + 1 / 10 else c1);
          c3 = (if expressionLabel cv \<noteq> ''unknown'' then c2 + 1 / 10 else c2)
      in max 0 (min 1 c3))"

text \<open>\<open>processFrame\<close> returns the metrics of the tick and the engine as it has mutated it.\<close>

definition processFrame ::
  "EngagementEngine \<Rightarrow> CVMetrics \<Rightarrow> HandMetrics \<Rightarrow> real
     \<Rightarrow> EngagementMetrics \<times> EngagementEngine" where
  "processFrame e cv hm ts =
     (let h = updateStateHistory (stateHistory e) cv ts;
          st = determineEngagementState (config e) h cv hm ts;
          sc = calculateEngagementScore (config e) st cv hm;
          cf = calculateConfidence cv hm;
          pushed = scoreHistory e @ [sc];
          hist = (if length pushed > maxHistoryLength then tl pushed else pushed)
      in (\<lparr> state = st, score = sc, confidence = cf, timestamp = ts \<rparr>,
          e\<lparr> stateHistory := h, scoreHistory := hist \<rparr>))"

text \<open>The sample \<open>extractMetrics\<close> returns when the detector found no face
  (\<open>result\<close> is \<open>null\<close>), and a hand sample with nothing detected.\<close>

definition noFaceMetrics :: CVMetrics where
  "noFaceMetrics = \<lparr> facePresent = False, eyesClosed = False, yawning = False,
     lookingAway = True, expressionLabel = ''unknown'',
     eyeAspectRatio = 0, mouthOpenRatio = 0 \<rparr>"

definition noHandMetrics :: HandMetrics where
  "noHandMetrics = \<lparr> handsPresent = False, handsFidgeting = False,
     handOverFace = False, fidgetingIntensity = 0 \<rparr>"

section \<open>Session store (apps/web/src/store/sessionStore.ts)\<close>

record SessionData =
  sd_id :: string
  sd_userId :: string
  sd_startedAt :: int
  sd_endedAt :: "int option"
  isActive :: bool
  isPaused :: bool
  duration :: int
  timeSeries :: "EngagementMetrics list"
  lastNudgeTime :: "real option"
  nudgeCount :: nat

text \<open>The store holds one field, \<open>currentSession\<close>, which is \<open>null\<close> or a session.\<close>

type_synonym SessionState = "SessionData option"

text \<open>The records handed to IndexedDB (apps/web/src/lib/idb.ts). The template string
  \<open>`${currentSession.id}-${index}`\<close> is kept as the pair of its two parts.\<close>

record Session =
  id_rec :: string
  userId :: string
  startedAt :: int
  endedAt :: int
  durationSec :: int
  engagedSec :: int
  distractedSec :: int
  awaySec :: int
  sleepySec :: int
  yawnCount :: nat
  distractedEpisodes :: nat
  version :: nat

record TimeSeriesPoint =
  id_pt :: "string \<times> nat"
  sessionId :: string
  tSec :: nat
  state_pt :: EngagementState
  score_pt :: jsnum

text \<open>\<open>NoActiveSession\<close> is \<open>Error('No active session')\<close>; the other two are the
  rejections of the awaited \<open>saveSession\<close> and \<open>saveTimeSeries\<close>.\<close>

datatype error = NoActiveSession | SaveSessionFailed | SaveTimeSeriesFailed

definition NUDGE_COOLDOWN_MS :: real where
  "NUDGE_COOLDOWN_MS = 60000"

text \<open>\<open>uuidv4()\<close> and \<open>new Date()\<close> are read from the environment; the model takes
  them as arguments.\<close>

definition startSession :: "string \<Rightarrow> int \<Rightarrow> string \<Rightarrow> SessionState \<Rightarrow> SessionState" where
  "startSession uuid now uid cs =
     Some \<lparr> sd_id = uuid, sd_userId = uid, sd_startedAt = now, sd_endedAt = None,
            isActive = True, isPaused = False, duration = 0, timeSeries = [],
            lastNudgeTime = None, nudgeCount = 0 \<rparr>"

text \<open>\<open>pauseSession\<close>, \<open>addMetrics\<close> and \<open>stopSession\<close> have the result type
  \<open>error + _\<close>, so that a \<open>throw\<close> (\<open>Inl\<close>) and a plain \<open>return\<close> (\<open>Inr\<close>) are
  told apart.\<close>

definition pauseSession :: "SessionState \<Rightarrow> error + SessionState" where
  "pauseSession cs =
     (case cs of
        None \<Rightarrow> Inr cs
      | Some s \<Rightarrow> if \<not> isActive s then Inr cs else Inr (Some (s\<lparr> isPaused := True \<rparr>)))"

definition resumeSession :: "SessionState \<Rightarrow> error + SessionState" where
  "resumeSession cs =
     (case cs of
        None \<Rightarrow> Inr cs
      | Some s \<Rightarrow> if \<not> isActive s then Inr cs else Inr (Some (s\<lparr> isPaused := False \<rparr>)))"

definition addMetrics :: "SessionState \<Rightarrow> EngagementMetrics \<Rightarrow> error + SessionState" where
  "addMetrics cs metrics =
     (case cs of
        None \<Rightarrow> Inr cs
      | Some s \<Rightarrow>
          if \<not> isActive s \<or> isPaused s then Inr cs
          else (let updatedTimeSeries = timeSeries s @ [metrics]
                in Inr (Some (s\<lparr> timeSeries := updatedTimeSeries,
                                  duration := int (length updatedTimeSeries) \<rparr>))))"

text \<open>\<open>Date.now()\<close> is the argument \<open>now\<close>.\<close>

definition recordNudge :: "SessionState \<Rightarrow> real \<Rightarrow> SessionState" where
  "recordNudge cs now =
     (case cs of
        None \<Rightarrow> cs
      | Some s \<Rightarrow> Some (s\<lparr> lastNudgeTime := Some now, nudgeCount := nudgeCount s + 1 \<rparr>))"

text \<open>The \<open>reduce\<close> of \<open>getEngagementStats\<close>: an object of four counters indexed by
  the state, one of them incremented per point. The percentage
  \<open>(counts.x / total) * 100\<close> is a double division followed by a double multiplication.\<close>

definition countStates :: "EngagementMetrics list \<Rightarrow> EngagementState \<Rightarrow> nat" where
  "countStates ts = fold (\<lambda>point acc. acc(state point := acc (state point) + 1)) ts (\<lambda>_. 0)"

definition getEngagementStats :: "SessionState \<Rightarrow> EngagementState \<Rightarrow> int" where
  "getEngagementStats cs =
     (case cs of
        None \<Rightarrow> (\<lambda>_. 0)
      | Some s \<Rightarrow>
          if length (timeSeries s) = 0 then (\<lambda>_. 0)
          else (let total = length (timeSeries s);
                    counts = countStates (timeSeries s)
                in (\<lambda>st. js_round (dbl (dbl (real (counts st) / real total) * 100)))))"

definition shouldShowNudge :: "SessionState \<Rightarrow> real \<Rightarrow> bool" where
  "shouldShowNudge cs currentTime =
     (case cs of
        None \<Rightarrow> True
      | Some s \<Rightarrow>
          if \<not> truthy (lastNudgeTime s) then True
          else currentTime - the (lastNudgeTime s) \<ge> NUDGE_COOLDOWN_MS)"

text \<open>The body of the \<open>forEach\<close> in \<open>stopSession\<close>, on the two locals
  \<open>distractedEpisodes\<close> and \<open>inDistractedEpisode\<close>.\<close>

definition episodeStep :: "EngagementMetrics \<Rightarrow> nat \<times> bool \<Rightarrow> nat \<times> bool" where
  "episodeStep point acc =
     (let isDistracted = (state point = Distracted \<or> state point = Sleepy)
      in if isDistracted \<and> \<not> snd acc then (fst acc + 1, True)
         else if \<not> isDistracted then (fst acc, False)
         else acc)"

definition countDistractedEpisodes :: "EngagementMetrics list \<Rightarrow> nat" where
  "countDistractedEpisodes ts = fst (fold episodeStep ts (0, False))"

definition timeSeriesPoints :: "string \<Rightarrow> EngagementMetrics list \<Rightarrow> TimeSeriesPoint list" where
  "timeSeriesPoints sid ts =
     map (\<lambda>(index, point).
            \<lparr> id_pt = (sid, index), sessionId = sid, tSec = index,
              state_pt = state point, score_pt = score point \<rparr>)
         (enumerate 0 ts)"

text \<open>What \<open>stopSession\<close> produces when it returns: the record given to
  \<open>saveSession\<close>, the points given to \<open>saveTimeSeries\<close>, the store after \<open>set\<close> and
  the returned session id. \<open>new Date()\<close> is the argument \<open>now\<close>. Whether the two awaited
  IndexedDB writes (apps/web/src/lib/idb.ts) succeed is decided outside the program: the
  arguments \<open>sessionSaved\<close> and \<open>pointsSaved\<close>. A write that fails rejects
  \<open>stopSession\<close> before \<open>set\<close> is reached, so the store stays as it was.\<close>


record StopResult =
  sessionRecord :: Session
  savedPoints :: "TimeSeriesPoint list"
  storeAfter :: SessionState
  returnedId :: string

text \<open>\<open>Math.round(stats.x * duration / 100)\<close>, which \<open>stopSession\<close> evaluates for each of
  the four states: a double multiplication, a double division, then the rounding.\<close>

definition secondsOf :: "int \<Rightarrow> int \<Rightarrow> int" where
  "secondsOf pct dur = js_round (dbl (dbl (of_int pct * of_int dur) / 100))"

definition stopSession ::
  "SessionState \<Rightarrow> int \<Rightarrow> bool \<Rightarrow> bool \<Rightarrow> error + StopResult" where
  "stopSession cs now sessionSaved pointsSaved =
     (case cs of
        None \<Rightarrow> Inl NoActiveSession
      | Some s \<Rightarrow>
          (let dur = (now - sd_startedAt s) div 1000;
               stats = getEngagementStats cs;
               r = \<lparr> id_rec = sd_id s, userId = sd_userId s, startedAt = sd_startedAt s,
                     endedAt = now, durationSec = dur,
                     engagedSec = secondsOf (stats Engaged) dur,
                     distractedSec = secondsOf (stats Distracted) dur,
                     awaySec = secondsOf (stats Away) dur,
                     sleepySec = secondsOf (stats Sleepy) dur,
                     yawnCount = length (filter (\<lambda>p. state p = Sleepy) (timeSeries s)),
                     distractedEpisodes = countDistractedEpisodes (timeSeries s),
                     version = 1 \<rparr>
           in if \<not> sessionSaved then Inl SaveSessionFailed
              else if \<not> pointsSaved then Inl SaveTimeSeriesFailed
              else Inr \<lparr> sessionRecord = r,
                         savedPoints = timeSeriesPoints (sd_id s) (timeSeries s),
                         storeAfter = Some (s\<lparr> sd_endedAt := Some now, isActive := False,
                                                duration := dur \<rparr>),
                         returnedId = sd_id s \<rparr>))"

section \<open>Sync route (apps/api/src/routes/sync.ts)\<close>

text \<open>\<open>validatedData.timeSeries.filter((_, index) => index % 5 === 0)\<close> in the handler
  of \<open>POST /sessions\<close>.\<close>

definition downsampledTimeSeries :: "'a list \<Rightarrow> 'a list" where
  "downsampledTimeSeries ts =
     map snd (filter (\<lambda>(index, _). index mod 5 = 0) (enumerate 0 ts))"

section \<open>Tick loop (apps/web/src/pages/Study.tsx)\<close>

text \<open>\<open>processFrame\<close> called once per sample, in order, on one engine.\<close>

fun processFrames ::
  "EngagementEngine \<Rightarrow> (CVMetrics \<times> HandMetrics \<times> real) list \<Rightarrow> EngagementMetrics list" where
  "processFrames e [] = []"
| "processFrames e ((cv, hm, ts) # fs) =
     fst (processFrame e cv hm ts) # processFrames (snd (processFrame e cv hm ts)) fs"

text \<open>Auxiliary: the states of the tick loop as a function of the configuration and the
  timers alone (the score history does not influence them).\<close>

fun statesFrom ::
  "EngagementConfig \<Rightarrow> StateHistory \<Rightarrow> (CVMetrics \<times> HandMetrics \<times> real) list
     \<Rightarrow> EngagementState list" where
  "statesFrom c h [] = []"
| "statesFrom c h ((cv, hm, ts) # fs) =
     determineEngagementState c (updateStateHistory h cv ts) cv hm ts
       # statesFrom c (updateStateHistory h cv ts) fs"

section \<open>The specification's notion of an episode\<close>

text \<open>Following the specification's words: a point is distracting when its state is
  \<open>distracted\<close> or \<open>sleepy\<close>, and the episodes are the maximal runs of consecutive
  distracting points. \<open>remdups_adj\<close> keeps one element of each maximal run of equal
  neighbours, so the runs of distracting points are the \<open>True\<close>s that remain.\<close>

definition spec_isDistracting :: "EngagementMetrics \<Rightarrow> bool" where
  "spec_isDistracting p \<longleftrightarrow> state p = Distracted \<or> state p = Sleepy"

definition spec_maximalRuns :: "EngagementMetrics list \<Rightarrow> nat" where
  "spec_maximalRuns ts = length (filter (\<lambda>b. b) (remdups_adj (map spec_isDistracting ts)))"

section \<open>Inputs used for evaluation\<close>

definition recoveredFace :: CVMetrics where
  "recoveredFace = \<lparr> facePresent = True, eyesClosed = False, yawning = False,
     lookingAway = False, expressionLabel = ''neutral'',
     eyeAspectRatio = 3 / 10, mouthOpenRatio = 1 / 10 \<rparr>"

text \<open>A face-absent sample with every other flag raised, and a hand sample with both
  hand flags raised.\<close>

definition absentAllFlags :: CVMetrics where
  "absentAllFlags = \<lparr> facePresent = False, eyesClosed = True, yawning = True,
     lookingAway = True, expressionLabel = ''angry'',
     eyeAspectRatio = 1 / 10, mouthOpenRatio = 9 / 10 \<rparr>"

definition busyHands :: HandMetrics where
  "busyHands = \<lparr> handsPresent = True, handsFidgeting = True,
     handOverFace = True, fidgetingIntensity = 1 \<rparr>"

text \<open>An engine whose four timers were all armed at 1000 ms.\<close>

definition armedEngine :: EngagementEngine where
  "armedEngine = \<lparr> config = defaultConfig,
     stateHistory = \<lparr> eyesClosedStart = Some 1000, yawnStart = Some 1000,
                      lookAwayStart = Some 1000, faceAbsentStart = Some 1000 \<rparr>,
     scoreHistory = [] \<rparr>"

text \<open>The scenario of the specification: three face-absent ticks at 0, 1000 and 2000 ms,
  then a recovered face at 2100 ms; and the same scenario one second later.\<close>

definition scenarioFrames :: "(CVMetrics \<times> HandMetrics \<times> real) list" where
  "scenarioFrames = [(noFaceMetrics, noHandMetrics, 0), (noFaceMetrics, noHandMetrics, 1000),
     (noFaceMetrics, noHandMetrics, 2000), (recoveredFace, noHandMetrics, 2100)]"

definition shiftedFrames :: "(CVMetrics \<times> HandMetrics \<times> real) list" where
  "shiftedFrames = [(noFaceMetrics, noHandMetrics, 1000), (noFaceMetrics, noHandMetrics, 2000),
     (noFaceMetrics, noHandMetrics, 3000), (recoveredFace, noHandMetrics, 3100)]"

text \<open>A metrics record with a given state, and the session that \<open>startSession\<close> at
  time 0 followed by one \<open>addMetrics\<close> per element of \<open>ts\<close> leaves in the store.\<close>

definition point :: "EngagementState \<Rightarrow> EngagementMetrics" where
  "point st = \<lparr> state = st, score = Finite 50, confidence = 1, timestamp = 0 \<rparr>"

definition sessionOf :: "EngagementMetrics list \<Rightarrow> SessionData" where
  "sessionOf ts = \<lparr> sd_id = ''s1'', sd_userId = ''u1'', sd_startedAt = 0, sd_endedAt = None,
     isActive = True, isPaused = False, duration = int (length ts), timeSeries = ts,
     lastNudgeTime = None, nudgeCount = 0 \<rparr>"

definition sixTicks :: "EngagementMetrics list" where
  "sixTicks = [point Engaged, point Distracted, point Sleepy, point Away,
     point Engaged, point Distracted]"

definition threeTicks :: "EngagementMetrics list" where
  "threeTicks = [point Engaged, point Engaged, point Engaged]"

text \<open>A series of 40 ticks, 23 of them engaged: the exact percentage 57.5 is a tie, and
  the double \<open>(23 / 40) * 100\<close> lies just below it.\<close>

definition fortyTicks :: "EngagementMetrics list" where
  "fortyTicks = replicate 23 (point Engaged) @ replicate 17 (point Away)"


text \<open>A series of 1000 ticks: 256 engaged, 256 distracted, 256 sleepy, 232 away.\<close>

definition longSeries :: "EngagementMetrics list" where
  "longSeries = replicate 256 (point Engaged) @ replicate 256 (point Distracted)
     @ replicate 256 (point Sleepy) @ replicate 232 (point Away)"

section \<open>Properties of the classifier\<close>

lemma clamp_cases:
  "Math_max (Finite 0) (Math_min (Finite 100) (Math_round s))
     = (case s of Finite x \<Rightarrow> Finite (max 0 (min 100 (of_int (js_round x))))
        | PosInf \<Rightarrow> Finite 100 | NegInf \<Rightarrow> Finite 0 | NaN \<Rightarrow> NaN)"
  by (cases s) simp_all

lemma js_add_Finite:
  "js_add s (Finite k)
     = (case s of Finite a \<Rightarrow> Finite (a + k) | PosInf \<Rightarrow> PosInf
        | NegInf \<Rightarrow> NegInf | NaN \<Rightarrow> NaN)"
  by (cases s) simp_all

lemma score_range:
  assumes "js_add (baselineScore c) (stateWeights c st) \<noteq> NaN"
  shows "\<exists>v. calculateEngagementScore c st cv hm = Finite v \<and> 0 \<le> v \<and> v \<le> 100 \<and> v \<in> \<int>"
  using assms unfolding calculateEngagementScore_def Let_def clamp_cases js_add_Finite
  by (cases "js_add (baselineScore c) (stateWeights c st)") (auto simp: max_def min_def)


lemma confidence_range:
  "1 / 2 \<le> calculateConfidence cv hm \<and> calculateConfidence cv hm \<le> 1"
  unfolding calculateConfidence_def Let_def
  by (auto simp: max_def min_def)

lemma processFrame_fields:
  "score (fst (processFrame e cv hm ts))
     = calculateEngagementScore (config e)
         (determineEngagementState (config e) (updateStateHistory (stateHistory e) cv ts) cv hm ts)
         cv hm"
  "confidence (fst (processFrame e cv hm ts)) = calculateConfidence cv hm"
  "state (fst (processFrame e cv hm ts))
     = determineEngagementState (config e) (updateStateHistory (stateHistory e) cv ts) cv hm ts"
  "config (snd (processFrame e cv hm ts)) = config e"
  "stateHistory (snd (processFrame e cv hm ts)) = updateStateHistory (stateHistory e) cv ts"
  by (simp_all add: processFrame_def Let_def)

lemma map_state_processFrames:
  "map state (processFrames e fs) = statesFrom (config e) (stateHistory e) fs"
  by (induction e fs rule: processFrames.induct) (simp_all add: processFrame_fields)

lemma updateStateHistory_noFace:
  "updateStateHistory h noFaceMetrics ts =
     \<lparr> eyesClosedStart = None, yawnStart = None,
       lookAwayStart = (if truthy (lookAwayStart h) then lookAwayStart h else Some ts),
       faceAbsentStart = (if truthy (faceAbsentStart h) then faceAbsentStart h else Some ts) \<rparr>"
  by (simp add: updateStateHistory_def track_def noFaceMetrics_def)

lemma updateStateHistory_recovered:
  "updateStateHistory h recoveredFace ts =
     \<lparr> eyesClosedStart = None, yawnStart = None, lookAwayStart = None, faceAbsentStart = None \<rparr>"
  by (simp add: updateStateHistory_def track_def recoveredFace_def)

lemma determine_noFace:
  "determineEngagementState defaultConfig h noFaceMetrics noHandMetrics ts =
     (if 2 \<le> elapsedSec (faceAbsentStart h) ts then Away
      else if 1 \<le> elapsedSec (eyesClosedStart h) ts \<or> 1 \<le> elapsedSec (yawnStart h) ts then Sleepy
      else Distracted)"
  by (simp add: determineEngagementState_def defaultConfig_def noFaceMetrics_def)

lemma determine_recovered:
  "determineEngagementState defaultConfig
      \<lparr> eyesClosedStart = None, yawnStart = None, lookAwayStart = None, faceAbsentStart = None \<rparr>
      recoveredFace noHandMetrics ts = Engaged"
  by (simp add: determineEngagementState_def defaultConfig_def recoveredFace_def noHandMetrics_def
        elapsedSec_def isNegativeExpression_def)

lemma processFrames_config:
  "m \<in> set (processFrames e fs) \<Longrightarrow>
     \<exists>e' cv hm ts. m = fst (processFrame e' cv hm ts) \<and> config e' = config e"
proof (induction e fs rule: processFrames.induct)
  case (1 e)
  then show ?case by simp
next
  case (2 e cv hm ts fs)
  show ?case
  proof (cases "m = fst (processFrame e cv hm ts)")
    case True
    then show ?thesis by blast
  next
    case False
    with 2 show ?thesis by (simp add: processFrame_fields)
  qed
qed

text \<open>With a configuration whose baseline and weights never add up to \<open>NaN\<close>, every
  record of a run of the tick loop is within the ranges.\<close>

lemma processFrames_ranges:
  assumes "\<And>st. js_add (baselineScore (config e)) (stateWeights (config e) st) \<noteq> NaN"
    and "m \<in> set (processFrames e fs)"
  shows "(\<exists>v. score m = Finite v \<and> 0 \<le> v \<and> v \<le> 100 \<and> v \<in> \<int>)
       \<and> 1 / 2 \<le> confidence m \<and> confidence m \<le> 1"
proof -
  obtain e' cv hm ts where m: "m = fst (processFrame e' cv hm ts)" and c: "config e' = config e"
    using processFrames_config [OF assms(2)] by blast
  show ?thesis
    using score_range [OF assms(1), of _ cv hm] confidence_range [of cv hm]
    by (simp add: m c processFrame_fields)
qed




text \<open>
  C10. The confidence \<open>processFrame\<close> returns is never below 0.5, and the sample of a
  total detection failure (no face, every default) has confidence exactly 0.5.
\<close>

theorem C10_confidence_at_least_half:
  "1 / 2 \<le> confidence (fst (processFrame e cv hm ts))
   \<and> confidence (fst (processFrame e noFaceMetrics noHandMetrics ts)) = 1 / 2"
  using confidence_range [of cv hm]
  by (simp add: processFrame_fields calculateConfidence_def noFaceMetrics_def)

text \<open>
  C7. If the face-absent duration that \<open>processFrame\<close> measures at a tick (the time since
  the face-absent timer as updated by this tick) is at least 2 seconds, the state
  returned is \<open>away\<close>, whatever the other flags, the hand sample, the other timers and
  the configuration are.
\<close>

theorem C7_away_priority:
  "2 \<le> elapsedSec (faceAbsentStart (updateStateHistory (stateHistory e) cv ts)) ts
     \<Longrightarrow> state (fst (processFrame e cv hm ts)) = Away"
proof -
  assume d: "2 \<le> elapsedSec (faceAbsentStart (updateStateHistory (stateHistory e) cv ts)) ts"
  have "\<not> facePresent cv"
  proof
    assume "facePresent cv"
    then have "faceAbsentStart (updateStateHistory (stateHistory e) cv ts) = None"
      by (simp add: updateStateHistory_def track_def)
    with d show False by (simp add: elapsedSec_def)
  qed
  with d show ?thesis
    by (simp add: processFrame_fields determineEngagementState_def)
qed

theorem C7_away_priority_witness:
  "2 \<le> elapsedSec (faceAbsentStart
            (updateStateHistory (stateHistory armedEngine) absentAllFlags 3000)) 3000
   \<and> state (fst (processFrame armedEngine absentAllFlags busyHands 3000)) = Away"
proof -
  have h: "2 \<le> elapsedSec (faceAbsentStart
            (updateStateHistory (stateHistory armedEngine) absentAllFlags 3000)) 3000"
    by (simp add: updateStateHistory_def track_def elapsedSec_def armedEngine_def
          absentAllFlags_def)
  from h C7_away_priority [OF h, of busyHands] show ?thesis by simp
qed

text \<open>In terms of the timer before the tick: a face absent since a non-zero timestamp at
  least 2000 ms back gives \<open>away\<close>, whatever else the sample says.\<close>

lemma away_after_two_seconds:
  assumes "\<not> facePresent cv" and "faceAbsentStart (stateHistory e) = Some t0"
    and "t0 \<noteq> 0" and "2000 \<le> ts - t0"
  shows "state (fst (processFrame e cv hm ts)) = Away"
proof -
  have "faceAbsentStart (updateStateHistory (stateHistory e) cv ts) = Some t0"
    using assms(1-3) by (simp add: updateStateHistory_def track_def)
  then show ?thesis
    using assms by (simp add: processFrame_fields determineEngagementState_def elapsedSec_def)
qed

text \<open>With the face present the same tick is classified \<open>sleepy\<close>: the eyes-closed and
  yawn timers have been armed for 2 seconds as well.\<close>

lemma armed_tick_sleepy_when_face_present:
  "state (fst (processFrame armedEngine (absentAllFlags\<lparr> facePresent := True \<rparr>) busyHands 3000))
     = Sleepy"
  by (simp add: processFrame_fields determineEngagementState_def updateStateHistory_def
        track_def elapsedSec_def armedEngine_def absentAllFlags_def defaultConfig_def)

text \<open>
  C3. The scenario with timestamps 0, 1000, 2000 and 2100 ms, run on a fresh engine with
  the default configuration, returns \<open>distracted\<close> on the three face-absent ticks and
  \<open>engaged\<close> on the recovery tick: the tick at 2000 ms is not \<open>away\<close>. The start stored
  at timestamp 0 is falsy, so the tick at 1000 ms arms the timer again and the absence
  measured at 2000 ms is 1 second.
\<close>

theorem C3_scenario_states:
  "map state (processFrames (newEngine defaultConfig) scenarioFrames)
     = [Distracted, Distracted, Distracted, Engaged]"
  by (subst map_state_processFrames)
     (simp add: scenarioFrames_def newEngine_def updateStateHistory_noFace
        updateStateHistory_recovered determine_noFace determine_recovered elapsedSec_def)

text \<open>The face-absent timer after the second tick of the scenario holds 1000, not 0.\<close>

lemma scenario_timer_rearmed:
  "faceAbsentStart (stateHistory (snd (processFrame
      (snd (processFrame (newEngine defaultConfig) noFaceMetrics noHandMetrics 0))
      noFaceMetrics noHandMetrics 1000))) = Some 1000"
  by (simp add: processFrame_fields newEngine_def updateStateHistory_noFace)

text \<open>The same scenario started at 1000 ms does reach \<open>away\<close> on its third tick.\<close>

lemma shifted_scenario_states:
  "map state (processFrames (newEngine defaultConfig) shiftedFrames)
     = [Distracted, Distracted, Away, Engaged]"
  by (subst map_state_processFrames)
     (simp add: shiftedFrames_def newEngine_def updateStateHistory_noFace
        updateStateHistory_recovered determine_noFace determine_recovered elapsedSec_def)

text \<open>Whatever the other flags of three face-absent samples at 0, 1000 and 2000 ms, and
  whatever the configuration, the third tick of a fresh engine is not \<open>away\<close>.\<close>

lemma third_tick_from_zero_not_away:
  assumes "\<not> facePresent cv0" "\<not> facePresent cv1" "\<not> facePresent cv2"
  shows "map state (processFrames (newEngine c)
           [(cv0, h0, 0), (cv1, h1, 1000), (cv2, h2, 2000)]) ! 2 \<noteq> Away"
proof -
  let ?a = "updateStateHistory (stateHistory (newEngine c)) cv0 0"
  let ?b = "updateStateHistory ?a cv1 1000"
  let ?c = "updateStateHistory ?b cv2 2000"
  have a: "faceAbsentStart ?a = Some 0"
    using assms(1) by (simp add: updateStateHistory_def track_def newEngine_def)
  have b: "faceAbsentStart ?b = Some 1000"
    using assms(2) a by (simp add: updateStateHistory_def track_def)
  have c: "faceAbsentStart ?c = Some 1000"
    using assms(3) b by (simp add: updateStateHistory_def track_def)
  have "determineEngagementState c ?c cv2 h2 2000 \<noteq> Away"
    using c by (simp add: determineEngagementState_def elapsedSec_def)
  then show ?thesis
    by (subst map_state_processFrames) (simp add: newEngine_def)
qed

section \<open>Properties of the session store\<close>

subsection \<open>What \<open>stopSession\<close> returns\<close>

lemma stopSession_projr:
  "stopSession (Some s) now True True = Inr (projr (stopSession (Some s) now True True))"
  by (simp add: stopSession_def Let_def)

text \<open>With a session in the store, \<open>stopSession\<close> fails exactly when a write fails.\<close>

lemma stopSession_write_failure:
  "stopSession (Some s) now a b
     = (if \<not> a then Inl SaveSessionFailed
        else if \<not> b then Inl SaveTimeSeriesFailed
        else stopSession (Some s) now True True)"
  by (simp add: stopSession_def Let_def)

lemma stopSession_fields:
  assumes "stopSession (Some s) now a b = Inr r"
  shows "durationSec (sessionRecord r) = (now - sd_startedAt s) div 1000"
    and "engagedSec (sessionRecord r)
           = secondsOf (getEngagementStats (Some s) Engaged) ((now - sd_startedAt s) div 1000)"
    and "distractedSec (sessionRecord r)
           = secondsOf (getEngagementStats (Some s) Distracted) ((now - sd_startedAt s) div 1000)"
    and "sleepySec (sessionRecord r)
           = secondsOf (getEngagementStats (Some s) Sleepy) ((now - sd_startedAt s) div 1000)"
    and "awaySec (sessionRecord r)
           = secondsOf (getEngagementStats (Some s) Away) ((now - sd_startedAt s) div 1000)"
    and "distractedEpisodes (sessionRecord r) = countDistractedEpisodes (timeSeries s)"
    and "savedPoints r = timeSeriesPoints (sd_id s) (timeSeries s)"
    and "storeAfter r = Some (s\<lparr> sd_endedAt := Some now, isActive := False,
           duration := (now - sd_startedAt s) div 1000 \<rparr>)"
  using assms by (auto simp: stopSession_def Let_def split: if_splits)

text \<open>\<open>sessionOf ts\<close> is the store after \<open>startSession\<close> and one \<open>addMetrics\<close> per
  element of \<open>ts\<close>.\<close>

lemma sessionOf_start: "startSession ''s1'' 0 ''u1'' cs = Some (sessionOf [])"
  by (simp add: startSession_def sessionOf_def)

lemma sessionOf_add: "addMetrics (Some (sessionOf ts)) m = Inr (Some (sessionOf (ts @ [m])))"
  by (simp add: addMetrics_def sessionOf_def Let_def)

subsection \<open>Downsampling\<close>

lemma filter_mod5_upt:
  "filter (\<lambda>i. i mod 5 = 0) [0..<n] = map (\<lambda>j. 5 * j) [0..<(n + 4) div 5]"
proof (induction n)
  case 0
  show ?case by simp
next
  case (Suc n)
  show ?case
  proof (cases "n mod 5 = 0")
    case True
    then have "(Suc n + 4) div 5 = Suc ((n + 4) div 5)" "5 * ((n + 4) div 5) = n"
      by presburger+
    with True Suc show ?thesis by simp
  next
    case False
    then have "(Suc n + 4) div 5 = (n + 4) div 5" by presburger
    with False Suc show ?thesis by simp
  qed
qed

lemma enumerate_filter_index:
  "map snd (filter (\<lambda>(i, _). P i) (enumerate 0 xs))
     = map (\<lambda>i. xs ! i) (filter P [0..<length xs])"
proof (induction xs rule: rev_induct)
  case Nil
  show ?case by simp
next
  case (snoc x xs)
  have "map (\<lambda>i. (xs @ [x]) ! i) (filter P [0..<length xs])
          = map (\<lambda>i. xs ! i) (filter P [0..<length xs])"
    by (rule map_cong) (auto simp: nth_append)
  with snoc show ?case
    by (simp add: enumerate_append_eq)
qed

lemma downsampled_stride:
  "downsampledTimeSeries ts = map (\<lambda>j. ts ! (5 * j)) [0..<(length ts + 4) div 5]"
  using enumerate_filter_index [of "\<lambda>i. i mod 5 = 0" ts]
  by (simp add: downsampledTimeSeries_def filter_mod5_upt comp_def)

lemma ceiling_fifth: "nat \<lceil>real n / 5\<rceil> = (n + 4) div 5"
proof -
  have "\<lceil>real n / 5\<rceil> = - ((- int n) div 5)"
    using ceiling_divide_eq_div [of "int n" 5] by simp
  then show ?thesis by linarith
qed

lemma downsampled_length:
  "length (downsampledTimeSeries ts) = nat \<lceil>real (length ts) / 5\<rceil>"
  by (simp add: downsampled_stride ceiling_fifth)

lemma downsampled_nth:
  "i < nat \<lceil>real (length ts) / 5\<rceil> \<Longrightarrow> downsampledTimeSeries ts ! i = ts ! (5 * i)"
  by (simp add: downsampled_stride ceiling_fifth)

lemma stride_in_range: "i < nat \<lceil>real n / 5\<rceil> \<Longrightarrow> 5 * i < n"
  unfolding ceiling_fifth by presburger

lemma timeSeriesPoints_length: "length (timeSeriesPoints sid ts) = length ts"
  by (simp add: timeSeriesPoints_def)

lemma timeSeriesPoints_nth:
  "i < length ts \<Longrightarrow> timeSeriesPoints sid ts ! i =
     \<lparr> id_pt = (sid, i), sessionId = sid, tSec = i,
       state_pt = state (ts ! i), score_pt = score (ts ! i) \<rparr>"
  by (simp add: timeSeriesPoints_def nth_enumerate_eq)

text \<open>
  C1 (as the claim states it, refuted). A session of six ticks stopped at 6000 ms: the
  series \<open>stopSession\<close> produces has six points, not \<open>\<lceil>6/5\<rceil> = 2\<close>.
\<close>

theorem C1_stop_not_strided_counterexample:
  "\<not> isl (stopSession (Some (sessionOf sixTicks)) 6000 True True)
   \<and> length (timeSeries (sessionOf sixTicks)) = 6
   \<and> length (savedPoints (projr (stopSession (Some (sessionOf sixTicks)) 6000 True True))) = 6
   \<and> nat \<lceil>real (length (timeSeries (sessionOf sixTicks))) / 5\<rceil> = 2"
proof -
  have r: "stopSession (Some (sessionOf sixTicks)) 6000 True True
             = Inr (projr (stopSession (Some (sessionOf sixTicks)) 6000 True True))"
    by (rule stopSession_projr)
  have n: "length (timeSeries (sessionOf sixTicks)) = 6"
    by (simp add: sessionOf_def sixTicks_def)
  have i: "\<not> isl (stopSession (Some (sessionOf sixTicks)) 6000 True True)"
    by (subst r) simp
  have "nat \<lceil>real (6::nat) / 5\<rceil> = 2"
    by (simp add: ceiling_fifth)
  with i n stopSession_fields(7) [OF r] show ?thesis
    by (simp add: timeSeriesPoints_length)
qed

text \<open>
  C1 (amended). The series \<open>stopSession\<close> produces is the full series: it has as many
  points as the session has ticks, and its point \<open>i\<close> has offset \<open>i\<close> and the state and
  score of tick \<open>i\<close>. The stride is taken by the sync route: the series it stores from
  the uploaded points has \<open>\<lceil>n/5\<rceil>\<close> points, and its point \<open>i\<close> has offset \<open>5i\<close> and the
  state and score of tick \<open>5i\<close>.
\<close>

theorem C1_full_series_then_stride:
  assumes "stopSession (Some s) now sessionSaved pointsSaved = Inr r"
  shows "length (savedPoints r) = length (timeSeries s)
    \<and> (\<forall>i < length (timeSeries s).
          tSec (savedPoints r ! i) = i
        \<and> state_pt (savedPoints r ! i) = state (timeSeries s ! i)
        \<and> score_pt (savedPoints r ! i) = score (timeSeries s ! i))
    \<and> length (downsampledTimeSeries (savedPoints r)) = nat \<lceil>real (length (timeSeries s)) / 5\<rceil>
    \<and> (\<forall>i < nat \<lceil>real (length (timeSeries s)) / 5\<rceil>.
          tSec (downsampledTimeSeries (savedPoints r) ! i) = 5 * i
        \<and> state_pt (downsampledTimeSeries (savedPoints r) ! i) = state (timeSeries s ! (5 * i))
        \<and> score_pt (downsampledTimeSeries (savedPoints r) ! i) = score (timeSeries s ! (5 * i)))"
proof -
  let ?ts = "timeSeries s"
  have sp: "savedPoints r = timeSeriesPoints (sd_id s) ?ts"
    by (rule stopSession_fields(7) [OF assms])
  have full: "\<forall>i < length ?ts. tSec (savedPoints r ! i) = i
        \<and> state_pt (savedPoints r ! i) = state (?ts ! i)
        \<and> score_pt (savedPoints r ! i) = score (?ts ! i)"
    by (simp add: sp timeSeriesPoints_nth)
  have len: "length (savedPoints r) = length ?ts"
    by (simp add: sp timeSeriesPoints_length)
  have dl: "length (downsampledTimeSeries (savedPoints r)) = nat \<lceil>real (length ?ts) / 5\<rceil>"
    by (simp add: downsampled_length len)
  have "tSec (downsampledTimeSeries (savedPoints r) ! i) = 5 * i
        \<and> state_pt (downsampledTimeSeries (savedPoints r) ! i) = state (?ts ! (5 * i))
        \<and> score_pt (downsampledTimeSeries (savedPoints r) ! i) = score (?ts ! (5 * i))"
    if "i < nat \<lceil>real (length ?ts) / 5\<rceil>" for i
  proof -
    have "5 * i < length ?ts" using that by (rule stride_in_range)
    moreover have "downsampledTimeSeries (savedPoints r) ! i = savedPoints r ! (5 * i)"
      using that by (simp add: downsampled_nth len)
    ultimately show ?thesis using full by simp
  qed
  with len full dl show ?thesis by blast
qed

theorem C1_full_series_then_stride_witness:
  "stopSession (Some (sessionOf sixTicks)) 6000 True True
     = Inr (projr (stopSession (Some (sessionOf sixTicks)) 6000 True True))
   \<and> length (downsampledTimeSeries
        (savedPoints (projr (stopSession (Some (sessionOf sixTicks)) 6000 True True)))) = 2
   \<and> map state_pt (downsampledTimeSeries
        (savedPoints (projr (stopSession (Some (sessionOf sixTicks)) 6000 True True))))
       = [Engaged, Distracted]"
proof -
  let ?r = "projr (stopSession (Some (sessionOf sixTicks)) 6000 True True)"
  have r: "stopSession (Some (sessionOf sixTicks)) 6000 True True = Inr ?r"
    by (rule stopSession_projr)
  have ts: "timeSeries (sessionOf sixTicks) = sixTicks"
    by (simp add: sessionOf_def)
  have c: "nat \<lceil>real (length sixTicks) / 5\<rceil> = 2"
    by (simp add: ceiling_fifth sixTicks_def)
  note w = C1_full_series_then_stride [OF r, unfolded ts c]
  have l: "length (downsampledTimeSeries (savedPoints ?r)) = 2"
    using w by simp
  have "state_pt (downsampledTimeSeries (savedPoints ?r) ! 0) = Engaged"
    using w by (simp add: sixTicks_def point_def)
  moreover have "state_pt (downsampledTimeSeries (savedPoints ?r) ! 1) = Distracted"
    using w by (simp add: sixTicks_def point_def)
  ultimately have "map state_pt (downsampledTimeSeries (savedPoints ?r)) = [Engaged, Distracted]"
    using l by (auto simp: list_eq_iff_nth_eq less_Suc_eq numeral_2_eq_2)
  with r l show ?thesis by simp
qed

subsection \<open>Duration\<close>

text \<open>
  C2 (as the claim states it, refuted). A session started at 0 ms that accumulated three
  ticks and is stopped at 10000 ms reports a duration of 10, not 3.
\<close>

theorem C2_duration_is_wall_clock_counterexample:
  "\<not> isl (stopSession (Some (sessionOf threeTicks)) 10000 True True)
   \<and> length (timeSeries (sessionOf threeTicks)) = 3
   \<and> durationSec (sessionRecord (projr (stopSession (Some (sessionOf threeTicks)) 10000 True True))) = 10"
proof -
  have r: "stopSession (Some (sessionOf threeTicks)) 10000 True True
             = Inr (projr (stopSession (Some (sessionOf threeTicks)) 10000 True True))"
    by (rule stopSession_projr)
  have i: "\<not> isl (stopSession (Some (sessionOf threeTicks)) 10000 True True)"
    by (subst r) simp
  have n: "length (timeSeries (sessionOf threeTicks)) = 3"
    by (simp add: sessionOf_def threeTicks_def)
  have "sd_startedAt (sessionOf threeTicks) = 0"
    by (simp add: sessionOf_def)
  with i n stopSession_fields(1) [OF r] show ?thesis by simp
qed

text \<open>
  C2 (amended). The duration in the record \<open>stopSession\<close> produces is the wall-clock
  difference between the stop time and the start time in whole seconds, rounded down;
  \<open>stopSession\<close> stores the same value in the session's \<open>duration\<close> field. The number
  of accumulated entries is what \<open>addMetrics\<close> stores in that field while the session
  runs: on an active session that is not paused it appends the entry and sets
  \<open>duration\<close> to the new length of the series.
\<close>

theorem C2_duration_wall_clock:
  assumes "stopSession (Some s) now sessionSaved pointsSaved = Inr r"
  shows "durationSec (sessionRecord r) = (now - sd_startedAt s) div 1000
    \<and> map_option duration (storeAfter r) = Some ((now - sd_startedAt s) div 1000)
    \<and> (if isActive s \<and> \<not> isPaused s
        then addMetrics (Some s) m
               = Inr (Some (s\<lparr> timeSeries := timeSeries s @ [m],
                                duration := int (length (timeSeries s @ [m])) \<rparr>))
        else addMetrics (Some s) m = Inr (Some s))"
  using stopSession_fields(1,8) [OF assms]
  by (simp add: addMetrics_def Let_def)

theorem C2_duration_wall_clock_witness:
  "stopSession (Some (sessionOf threeTicks)) 10000 True True
     = Inr (projr (stopSession (Some (sessionOf threeTicks)) 10000 True True))
   \<and> durationSec (sessionRecord (projr (stopSession (Some (sessionOf threeTicks)) 10000 True True)))
       = (10000 - 0) div 1000
   \<and> addMetrics (Some (sessionOf threeTicks)) (point Away)
       = Inr (Some (sessionOf (threeTicks @ [point Away])))"
proof -
  have r: "stopSession (Some (sessionOf threeTicks)) 10000 True True
             = Inr (projr (stopSession (Some (sessionOf threeTicks)) 10000 True True))"
    by (rule stopSession_projr)
  have s: "sd_startedAt (sessionOf threeTicks) = 0"
    by (simp add: sessionOf_def)
  from r C2_duration_wall_clock [OF r, of "point Away"] s show ?thesis
    by (simp add: sessionOf_def)
qed

subsection \<open>Lifecycle misuse\<close>




text \<open>With a session in the store the only failures of \<open>stopSession\<close> are those of the
  two writes, and a failed write leaves no result: the store is not updated.\<close>

lemma stopSession_failures:
  "stopSession (Some s) now False b = Inl SaveSessionFailed"
  "stopSession (Some s) now True False = Inl SaveTimeSeriesFailed"
  "\<not> isl (stopSession (Some s) now True True)"
  by (simp_all add: stopSession_def Let_def)

subsection \<open>Distraction episodes\<close>

lemma episodeStep_edge:
  "episodeStep p (c, b)
     = (if spec_isDistracting p then (if b then c else c + 1, True) else (c, False))"
  by (simp add: episodeStep_def spec_isDistracting_def Let_def)

lemma fold_episodeStep:
  "fst (fold episodeStep ts (c, b)) + (if b then 1 else 0)
     = c + length (filter (\<lambda>x. x) (remdups_adj (b # map spec_isDistracting ts)))"
proof (induction ts arbitrary: c b)
  case Nil
  show ?case by simp
next
  case (Cons p ts)
  show ?case
  proof (cases "spec_isDistracting p")
    case True
    then show ?thesis using Cons.IH [of "if b then c else c + 1" True]
      by (cases b) (simp_all add: episodeStep_edge)
  next
    case False
    then show ?thesis using Cons.IH [of c False]
      by (cases b) (simp_all add: episodeStep_edge)
  qed
qed

lemma countDistractedEpisodes_runs: "countDistractedEpisodes ts = spec_maximalRuns ts"
  using fold_episodeStep [of ts 0 False]
  by (cases "map spec_isDistracting ts")
     (auto simp: countDistractedEpisodes_def spec_maximalRuns_def)

text \<open>
  C6. \<open>stopSession\<close> on a session, its two writes succeeding, returns a record whose \<open>distractedEpisodes\<close> is the
  number of maximal runs of distracting points of the series, whatever their lengths;
  one step of the loop adds one to the counter exactly when the point is distracting
  and the in-episode flag is false, and leaves the flag equal to whether the point is
  distracting.
\<close>

theorem C6_episode_count:
  "(\<exists>r. stopSession (Some s) now True True = Inr r
        \<and> distractedEpisodes (sessionRecord r) = spec_maximalRuns (timeSeries s))
   \<and> fst (episodeStep p (c, b)) = (if spec_isDistracting p \<and> \<not> b then c + 1 else c)
   \<and> snd (episodeStep p (c, b)) = spec_isDistracting p"
proof -
  have "stopSession (Some s) now True True = Inr (projr (stopSession (Some s) now True True))"
    by (rule stopSession_projr)
  then have "\<exists>r. stopSession (Some s) now True True = Inr r
        \<and> distractedEpisodes (sessionRecord r) = spec_maximalRuns (timeSeries s)"
    using stopSession_fields(6) countDistractedEpisodes_runs by metis
  then show ?thesis by (simp add: episodeStep_edge)
qed

text \<open>Runs of different lengths: the series of six ticks has the runs
  \<open>distracted, sleepy\<close> and \<open>distracted\<close>; a series with runs of lengths 3, 1 and 2 has
  three episodes.\<close>

lemma episodes_examples:
  "countDistractedEpisodes sixTicks = 2"
  "countDistractedEpisodes [point Distracted, point Distracted, point Sleepy, point Engaged,
     point Away, point Sleepy, point Engaged, point Distracted, point Distracted] = 3"
  by (simp_all add: countDistractedEpisodes_runs spec_maximalRuns_def sixTicks_def
        point_def spec_isDistracting_def)

lemma remdups_adj_repeat: "remdups_adj (xs @ x # x # ys) = remdups_adj (xs @ x # ys)"
  by (induction xs rule: remdups_adj.induct) auto

text \<open>Lengthening a run by repeating one of its points leaves the count as it is.\<close>

lemma episodes_run_length:
  "countDistractedEpisodes (xs @ p # p # ys) = countDistractedEpisodes (xs @ p # ys)"
  using remdups_adj_repeat [of "map spec_isDistracting xs" "spec_isDistracting p"
      "map spec_isDistracting ys"]
  by (simp add: countDistractedEpisodes_runs spec_maximalRuns_def)

subsection \<open>Double rounding\<close>

lemma roundTiesToEven_error: "\<bar>of_int (roundTiesToEven x) - x\<bar> \<le> 1 / 2"
  unfolding roundTiesToEven_def Let_def by (auto; linarith)

text \<open>The relative error of one rounding is at most \<open>2\<^sup>-\<^sup>5\<^sup>3\<close>.\<close>

lemma dbl_error: "\<bar>dbl x - x\<bar> \<le> \<bar>x\<bar> / 2 ^ 53"
proof (cases "x = 0")
  case True
  then show ?thesis by (simp add: dbl_def)
next
  case False
  define e where "e = \<lfloor>log 2 \<bar>x\<bar>\<rfloor>"
  define u :: real where "u = 2 powr (of_int e - 52)"
  have u: "0 < u" by (simp add: u_def)
  have "of_int e \<le> log 2 \<bar>x\<bar>" by (simp add: e_def)
  then have lo: "2 powr of_int e \<le> \<bar>x\<bar>"
    using False by (simp add: le_log_iff)
  have d: "dbl x = of_int (roundTiesToEven (x / u)) * u"
    using False by (simp add: dbl_def e_def u_def Let_def)
  have "dbl x - x = (of_int (roundTiesToEven (x / u)) - x / u) * u"
    using u by (simp add: d field_simps)
  then have "\<bar>dbl x - x\<bar> = \<bar>of_int (roundTiesToEven (x / u)) - x / u\<bar> * u"
    using u by (simp add: abs_mult)
  also have "\<dots> \<le> 1 / 2 * u"
    using u roundTiesToEven_error [of "x / u"] by (intro mult_right_mono) simp_all
  also have "\<dots> = 2 powr of_int e / 2 ^ 53"
    by (simp add: u_def powr_diff)
  also have "\<dots> \<le> \<bar>x\<bar> / 2 ^ 53"
    using lo by (simp add: divide_right_mono)
  finally show ?thesis .
qed

text \<open>Evaluation of \<open>dbl\<close> once the binade of the argument is known.\<close>

lemma dbl_eval:
  assumes "2 powr of_int e \<le> \<bar>x\<bar>" and "\<bar>x\<bar> < 2 powr (of_int e + 1)"
  shows "dbl x = of_int (roundTiesToEven (x / 2 powr (of_int e - 52))) * 2 powr (of_int e - 52)"
proof -
  have x: "x \<noteq> 0" using assms(1) by (smt (verit) powr_gt_zero abs_zero)
  then have "of_int e \<le> log 2 \<bar>x\<bar>" "log 2 \<bar>x\<bar> < of_int e + 1"
    using assms by (simp_all add: le_log_iff log_less_iff)
  then have "\<lfloor>log 2 \<bar>x\<bar>\<rfloor> = e" by linarith
  then show ?thesis using x by (simp add: dbl_def Let_def)
qed

text \<open>The percentage \<open>(c / n) * 100\<close> of a count \<open>c \<le> n\<close>, computed in doubles, is within
  \<open>2\<^sup>-\<^sup>4\<^sup>4\<close> of the exact percentage.\<close>

lemma percent_error:
  assumes "0 \<le> q" and "q \<le> 1"
  shows "\<bar>dbl (dbl q * 100) - q * 100\<bar> \<le> 1 / 2 ^ 44"
proof -
  have "\<bar>q\<bar> / 2 ^ 53 \<le> 1 / 2 ^ 53"
    using assms by (simp add: divide_right_mono)
  with dbl_error [of q] have a: "\<bar>dbl q - q\<bar> \<le> 1 / 2 ^ 53"
    by linarith
  have "(1::real) / 2 ^ 53 \<le> 1" by simp
  with a assms have "\<bar>dbl q\<bar> \<le> 2"
    by linarith
  then have b: "\<bar>dbl q * 100\<bar> \<le> 200"
    by (simp add: abs_mult)
  have "\<bar>dbl (dbl q * 100) - dbl q * 100\<bar> \<le> \<bar>dbl q * 100\<bar> / 2 ^ 53"
    by (rule dbl_error)
  also have "\<dots> \<le> 200 / 2 ^ 53"
    using b by (simp add: divide_right_mono)
  finally have c: "\<bar>dbl (dbl q * 100) - dbl q * 100\<bar> \<le> 200 / 2 ^ 53" .
  have "\<bar>(dbl q - q) * 100\<bar> = \<bar>dbl q - q\<bar> * 100"
    by (simp only: abs_mult abs_numeral)
  moreover have "(dbl q - q) * 100 = dbl q * 100 - q * 100"
    by (simp only: left_diff_distrib)
  ultimately have "\<bar>dbl q * 100 - q * 100\<bar> = \<bar>dbl q - q\<bar> * 100"
    by (simp only:)
  with a have "\<bar>dbl q * 100 - q * 100\<bar> \<le> 100 / 2 ^ 53"
    by simp
  with c have "\<bar>dbl (dbl q * 100) - q * 100\<bar> \<le> 300 / 2 ^ 53"
    by linarith
  also have "(300::real) / 2 ^ 53 \<le> 1 / 2 ^ 44"
    by simp
  finally show ?thesis .
qed

text \<open>\<open>p * d / 100\<close> computed in doubles is within \<open>3 |p d| / 100\<close> times \<open>2\<^sup>-\<^sup>5\<^sup>3\<close> of the exact
  quotient.\<close>

lemma product_error:
  "\<bar>dbl (dbl a / 100) - a / 100\<bar> \<le> 3 * \<bar>a\<bar> / 100 / 2 ^ 53"
proof -
  define k where "k = \<bar>a\<bar> / 100 / 2 ^ 53"
  have e1: "\<bar>dbl a - a\<bar> \<le> \<bar>a\<bar> / 2 ^ 53" by (rule dbl_error)
  have "\<bar>a\<bar> / 2 ^ 53 \<le> \<bar>a\<bar>" by (simp add: field_simps)
  with e1 have m: "\<bar>dbl a\<bar> \<le> 2 * \<bar>a\<bar>" by linarith
  have "\<bar>dbl (dbl a / 100) - dbl a / 100\<bar> \<le> \<bar>dbl a / 100\<bar> / 2 ^ 53"
    by (rule dbl_error)
  also have "\<dots> \<le> 2 * \<bar>a\<bar> / 100 / 2 ^ 53"
    using m by (simp add: divide_right_mono)
  finally have e2: "\<bar>dbl (dbl a / 100) - dbl a / 100\<bar> \<le> 2 * k"
    by (simp add: k_def)
  have "\<bar>dbl a / 100 - a / 100\<bar> = \<bar>dbl a - a\<bar> / 100"
    by (simp add: diff_divide_distrib [symmetric])
  also have "\<dots> \<le> \<bar>a\<bar> / 2 ^ 53 / 100"
    using e1 by (simp add: divide_right_mono)
  finally have e3: "\<bar>dbl a / 100 - a / 100\<bar> \<le> k"
    by (simp add: k_def)
  from e2 e3 have "\<bar>dbl (dbl a / 100) - a / 100\<bar> \<le> 3 * k" by linarith
  then show ?thesis by (simp add: k_def)
qed

subsection \<open>Per-state seconds\<close>

lemma fold_count_acc:
  "fold (\<lambda>point acc. acc(state point := acc (state point) + 1)) ts acc st
     = acc st + length (filter (\<lambda>p. state p = st) ts)"
  by (induction ts arbitrary: acc) auto

lemma countStates_filter:
  "countStates ts st = length (filter (\<lambda>p. state p = st) ts)"
  unfolding countStates_def by (subst fold_count_acc) simp

lemma countStates_total:
  "countStates ts Engaged + countStates ts Distracted + countStates ts Sleepy
     + countStates ts Away = length ts"
proof (induction ts)
  case Nil
  show ?case by (simp add: countStates_filter)
next
  case (Cons p ts)
  then show ?case by (cases "state p") (simp_all add: countStates_filter)
qed

lemma countStates_le: "countStates ts st \<le> length ts"
  by (simp add: countStates_filter)

lemma js_round_upper: "real_of_int (js_round x) \<le> x + 1 / 2"
  unfolding js_round_def by linarith

lemma js_round_lower: "x - 1 / 2 < real_of_int (js_round x)"
  unfolding js_round_def by linarith

text \<open>Each rounded percentage of a non-empty series is within \<open>1/2 + 2\<^sup>-\<^sup>4\<^sup>4\<close> of the exact
  percentage, and is not negative.\<close>

lemma percent_of_state:
  assumes "timeSeries s \<noteq> []"
  defines "q \<equiv> \<lambda>st. real (countStates (timeSeries s) st) / real (length (timeSeries s)) * 100"
  shows "real_of_int (getEngagementStats (Some s) st) \<le> q st + 1 / 2 + 1 / 2 ^ 44"
    and "q st - 1 / 2 - 1 / 2 ^ 44 < real_of_int (getEngagementStats (Some s) st)"
    and "0 \<le> getEngagementStats (Some s) st"
proof -
  let ?n = "real (length (timeSeries s))"
  let ?x = "real (countStates (timeSeries s) st) / ?n"
  have n: "0 < ?n" using assms(1) by simp
  have x: "0 \<le> ?x" "?x \<le> 1"
    using n countStates_le [of "timeSeries s" st] by simp_all
  have g: "getEngagementStats (Some s) st = js_round (dbl (dbl ?x * 100))"
    using assms(1) by (simp add: getEngagementStats_def Let_def)
  have e: "\<bar>dbl (dbl ?x * 100) - q st\<bar> \<le> 1 / 2 ^ 44"
    unfolding q_def by (rule percent_error [OF x])
  show u: "real_of_int (getEngagementStats (Some s) st) \<le> q st + 1 / 2 + 1 / 2 ^ 44"
    using js_round_upper [of "dbl (dbl ?x * 100)"] e unfolding g by linarith
  show l: "q st - 1 / 2 - 1 / 2 ^ 44 < real_of_int (getEngagementStats (Some s) st)"
    using js_round_lower [of "dbl (dbl ?x * 100)"] e unfolding g by linarith
  have "0 \<le> q st" using x by (simp add: q_def)
  with l have "- 1 < real_of_int (getEngagementStats (Some s) st)" by simp
  then show "0 \<le> getEngagementStats (Some s) st" by linarith
qed

text \<open>The four rounded percentages of a non-empty series add up to between 98 and 102.\<close>

lemma percent_sum:
  assumes "timeSeries s \<noteq> []"
  defines "pc \<equiv> getEngagementStats (Some s)"
  shows "98 \<le> pc Engaged + pc Distracted + pc Sleepy + pc Away
       \<and> pc Engaged + pc Distracted + pc Sleepy + pc Away \<le> 102"
proof -
  let ?ts = "timeSeries s"
  let ?n = "real (length ?ts)"
  let ?q = "\<lambda>st. real (countStates ?ts st) / ?n * 100"
  have n: "0 < ?n" using assms(1) by simp
  have "real (countStates ?ts Engaged) + real (countStates ?ts Distracted)
          + real (countStates ?ts Sleepy) + real (countStates ?ts Away) = ?n"
    using countStates_total [of ?ts] by (metis of_nat_add)
  then have tot: "?q Engaged + ?q Distracted + ?q Sleepy + ?q Away = 100"
    using n by (simp add: field_simps)
  note up = percent_of_state(1) [OF assms(1), folded pc_def]
  note lo = percent_of_state(2) [OF assms(1), folded pc_def]
  have "real_of_int (pc Engaged + pc Distracted + pc Sleepy + pc Away) < 103"
    using up [of Engaged] up [of Distracted] up [of Sleepy] up [of Away] tot by simp
  moreover have "97 < real_of_int (pc Engaged + pc Distracted + pc Sleepy + pc Away)"
    using lo [of Engaged] lo [of Distracted] lo [of Sleepy] lo [of Away] tot by simp
  ultimately show ?thesis by linarith
qed

text \<open>Multiplying four non-negative percentages that add up to between 98 and 102 back
  by a duration below \<open>2\<^sup>4\<^sup>5\<close> and rounding each product.\<close>

lemma seconds_sum:
  fixes a b c d D :: int
  assumes P: "98 \<le> a + b + c + d" "a + b + c + d \<le> 102"
    and nn: "0 \<le> a" "0 \<le> b" "0 \<le> c" "0 \<le> d"
    and D: "\<bar>D\<bar> \<le> 2 ^ 45"
  shows "50 * \<bar>secondsOf a D + secondsOf b D + secondsOf c D + secondsOf d D - D\<bar>
           \<le> 100 + \<bar>D\<bar>"
proof -
  let ?S = "secondsOf a D + secondsOf b D + secondsOf c D + secondsOf d D"
  let ?P = "a + b + c + d"
  define t :: real where "t = \<bar>real_of_int D\<bar> / 100 / 2 ^ 53"
  have t0: "0 \<le> t" by (simp add: t_def)
  have err: "\<bar>dbl (dbl (of_int x * of_int D) / 100) - of_int x * of_int D / 100\<bar>
               \<le> 3 * real_of_int x * t" if "0 \<le> x" for x :: int
    using product_error [of "of_int x * of_int D"] that
    by (simp add: t_def abs_mult)
  have up: "real_of_int (secondsOf x D) \<le> of_int x * of_int D / 100 + 1 / 2 + 3 * real_of_int x * t"
    if "0 \<le> x" for x :: int
    using js_round_upper [of "dbl (dbl (of_int x * of_int D) / 100)"] err [OF that]
    unfolding secondsOf_def by linarith
  have lo: "of_int x * of_int D / 100 - 1 / 2 - 3 * real_of_int x * t < real_of_int (secondsOf x D)"
    if "0 \<le> x" for x :: int
    using js_round_lower [of "dbl (dbl (of_int x * of_int D) / 100)"] err [OF that]
    unfolding secondsOf_def by linarith
  have mid: "real_of_int a * of_int D / 100 + of_int b * of_int D / 100
               + of_int c * of_int D / 100 + of_int d * of_int D / 100
             = real_of_int (?P * D) / 100"
    by (simp add: algebra_simps add_divide_distrib)
  have terr: "3 * real_of_int a * t + 3 * real_of_int b * t + 3 * real_of_int c * t
                + 3 * real_of_int d * t = 3 * real_of_int ?P * t"
    by (simp add: algebra_simps)
  have "real_of_int ?P \<le> 102" using P(2) by linarith
  then have "3 * real_of_int ?P * t \<le> 306 * t"
    using t0 by (simp add: mult_right_mono)
  moreover have "\<bar>real_of_int D\<bar> \<le> 2 ^ 45"
    using D by (metis of_int_abs of_int_le_iff of_int_numeral of_int_power)
  then have "306 * t \<le> 3 / 200"
    by (simp add: t_def field_simps)
  ultimately have tb: "3 * real_of_int ?P * t \<le> 3 / 200" by linarith
  have S_up: "real_of_int ?S \<le> real_of_int (?P * D) / 100 + 2 + 3 / 200"
    using up [OF nn(1)] up [OF nn(2)] up [OF nn(3)] up [OF nn(4)] mid terr tb by simp
  have S_lo: "real_of_int (?P * D) / 100 - 2 - 3 / 200 < real_of_int ?S"
    using lo [OF nn(1)] lo [OF nn(2)] lo [OF nn(3)] lo [OF nn(4)] mid terr tb by simp
  have "\<bar>?P - 100\<bar> \<le> 2" using P by simp
  then have "\<bar>?P - 100\<bar> * \<bar>D\<bar> \<le> 2 * \<bar>D\<bar>"
    by (rule mult_right_mono) simp
  then have PD: "\<bar>?P * D - 100 * D\<bar> \<le> 2 * \<bar>D\<bar>"
    by (simp add: abs_mult [symmetric] left_diff_distrib)
  then have "\<bar>real_of_int (?P * D) - 100 * real_of_int D\<bar> \<le> 2 * \<bar>real_of_int D\<bar>"
    by (metis (mono_tags) of_int_abs of_int_diff of_int_le_iff of_int_mult of_int_numeral)
  then have "\<bar>real_of_int (?P * D) / 100 - real_of_int D\<bar> \<le> \<bar>real_of_int D\<bar> / 50"
    by (simp add: abs_le_iff field_simps)
  with S_up S_lo
  have "\<bar>real_of_int ?S - real_of_int D\<bar> \<le> 2 + 3 / 200 + \<bar>real_of_int D\<bar> / 50"
    by linarith
  then have "50 * \<bar>real_of_int ?S - real_of_int D\<bar> < 101 + \<bar>real_of_int D\<bar>"
    by simp
  then have "real_of_int (50 * \<bar>?S - D\<bar>) < real_of_int (101 + \<bar>D\<bar>)"
    by simp
  then have "50 * \<bar>?S - D\<bar> < 101 + \<bar>D\<bar>"
    by (simp only: of_int_less_iff)
  then show ?thesis by linarith
qed

text \<open>The percentages and seconds of the series of 1000 ticks, in doubles.\<close>

lemma percent_256_of_1000: "js_round (dbl (dbl (real (256::nat) / real (1000::nat)) * 100)) = 26"
proof -
  have a: "dbl (real (256::nat) / real (1000::nat)) = 4611686018427388 / 2 ^ 54"
    by (subst dbl_eval [where e = "-2"]) (simp_all add: roundTiesToEven_def powr_minus_divide)
  have b: "dbl (4611686018427388 / 2 ^ 54 * 100) = 7205759403792794 / 2 ^ 48"
    by (subst dbl_eval [where e = 4]) (simp_all add: roundTiesToEven_def powr_minus_divide)
  show ?thesis unfolding a b by (simp add: js_round_def)
qed

lemma percent_232_of_1000: "js_round (dbl (dbl (real (232::nat) / real (1000::nat)) * 100)) = 23"
proof -
  have a: "dbl (real (232::nat) / real (1000::nat)) = 8358680908399641 / 2 ^ 55"
    by (subst dbl_eval [where e = "-3"]) (simp_all add: roundTiesToEven_def powr_minus_divide)
  have b: "dbl (8358680908399641 / 2 ^ 55 * 100) = 6530219459687220 / 2 ^ 48"
    by (subst dbl_eval [where e = 4]) (simp_all add: roundTiesToEven_def powr_minus_divide)
  show ?thesis unfolding a b by (simp add: js_round_def)
qed

lemma seconds_of_1000:
  "secondsOf 26 1000 = 260"
  "secondsOf 23 1000 = 230"
proof -
  have a: "dbl (of_int 26 * of_int 1000) = 26000"
    by (subst dbl_eval [where e = 14]) (simp_all add: roundTiesToEven_def powr_minus_divide)
  have b: "dbl (26000 / 100) = 260"
    by (subst dbl_eval [where e = 8]) (simp_all add: roundTiesToEven_def powr_minus_divide)
  show "secondsOf 26 1000 = 260"
    unfolding secondsOf_def a b by (simp add: js_round_def)
  have c: "dbl (of_int 23 * of_int 1000) = 23000"
    by (subst dbl_eval [where e = 14]) (simp_all add: roundTiesToEven_def powr_minus_divide)
  have d: "dbl (23000 / 100) = 230"
    by (subst dbl_eval [where e = 7]) (simp_all add: roundTiesToEven_def powr_minus_divide)
  show "secondsOf 23 1000 = 230"
    unfolding secondsOf_def c d by (simp add: js_round_def)
qed

lemma stats_of_series:
  "ts \<noteq> [] \<Longrightarrow> getEngagementStats (Some (sessionOf ts)) st
     = js_round (dbl (dbl (real (countStates ts st) / real (length ts)) * 100))"
  by (simp add: getEngagementStats_def sessionOf_def Let_def)

lemma long_counts:
  "longSeries \<noteq> []" "length longSeries = 1000"
  "countStates longSeries Engaged = 256" "countStates longSeries Distracted = 256"
  "countStates longSeries Sleepy = 256" "countStates longSeries Away = 232"
  by (simp_all add: longSeries_def countStates_filter point_def)

lemma long_stats:
  "getEngagementStats (Some (sessionOf longSeries)) Engaged = 26"
  "getEngagementStats (Some (sessionOf longSeries)) Distracted = 26"
  "getEngagementStats (Some (sessionOf longSeries)) Sleepy = 26"
  "getEngagementStats (Some (sessionOf longSeries)) Away = 23"
  by (simp_all only: stats_of_series [OF long_counts(1)] long_counts
        percent_256_of_1000 percent_232_of_1000)

text \<open>On 23 engaged ticks of 40 the double \<open>(23 / 40) * 100\<close> is below 57.5, and the
  percentage is 57 (the exact quotient would round to 58).\<close>

lemma forty_counts:
  "fortyTicks \<noteq> []" "length fortyTicks = 40" "countStates fortyTicks Engaged = 23"
  by (simp_all add: fortyTicks_def countStates_filter point_def)

lemma percent_23_of_40: "js_round (dbl (dbl (real (23::nat) / real (40::nat)) * 100)) = 57"
proof -
  have a: "dbl (real (23::nat) / real (40::nat)) = 5179139571476070 / 2 ^ 53"
    by (subst dbl_eval [where e = "-1"]) (simp_all add: roundTiesToEven_def powr_minus_divide)
  have b: "dbl (5179139571476070 / 2 ^ 53 * 100) = 8092405580431359 / 2 ^ 47"
    by (subst dbl_eval [where e = 5]) (simp_all add: roundTiesToEven_def powr_minus_divide)
  show ?thesis unfolding a b by (simp add: js_round_def)
qed

lemma forty_stats:
  "getEngagementStats (Some (sessionOf fortyTicks)) Engaged = 57"
  "js_round (real (23::nat) / real (40::nat) * 100) = 58"
  by (simp only: stats_of_series [OF forty_counts(1)] forty_counts percent_23_of_40)
     (simp add: js_round_def)

text \<open>
  C5 (as the claim states it, refuted). A session of 1000 ticks (256 engaged, 256
  distracted, 256 sleepy, 232 away) started at 0 ms and stopped at 1000000 ms has
  duration 1000; its percentages round to 26, 26, 26 and 23, and its four per-state
  seconds are 260, 260, 260 and 230: they add up to 1010, ten more than the duration.
\<close>

theorem C5_seconds_sum_counterexample:
  "\<not> isl (stopSession (Some (sessionOf longSeries)) 1000000 True True)
   \<and> durationSec (sessionRecord (projr (stopSession (Some (sessionOf longSeries)) 1000000 True True)))
       = 1000
   \<and> engagedSec (sessionRecord (projr (stopSession (Some (sessionOf longSeries)) 1000000 True True)))
     + distractedSec (sessionRecord (projr (stopSession (Some (sessionOf longSeries)) 1000000 True True)))
     + sleepySec (sessionRecord (projr (stopSession (Some (sessionOf longSeries)) 1000000 True True)))
     + awaySec (sessionRecord (projr (stopSession (Some (sessionOf longSeries)) 1000000 True True)))
       = 1010"
proof -
  let ?r = "projr (stopSession (Some (sessionOf longSeries)) 1000000 True True)"
  have r: "stopSession (Some (sessionOf longSeries)) 1000000 True True = Inr ?r"
    by (rule stopSession_projr)
  have st: "sd_startedAt (sessionOf longSeries) = 0"
    by (simp add: sessionOf_def)
  have dv: "(1000000 - 0) div 1000 = (1000::int)" by simp
  note f = stopSession_fields(1-5) [OF r, unfolded st long_stats dv seconds_of_1000]
  have i: "\<not> isl (stopSession (Some (sessionOf longSeries)) 1000000 True True)"
    by (subst r) simp
  from i f show ?thesis by simp
qed

text \<open>
  C5 (amended). For a session with at least one tick and a duration below \<open>2\<^sup>4\<^sup>5\<close>
  seconds, the four per-state seconds of the record add up to the duration within
  \<open>2 + |duration| / 50\<close>; so within 4 when the duration is at most 100 seconds.
\<close>

theorem C5_seconds_sum_bound:
  assumes "timeSeries s \<noteq> []"
    and "stopSession (Some s) now sessionSaved pointsSaved = Inr r"
    and "\<bar>durationSec (sessionRecord r)\<bar> \<le> 2 ^ 45"
  shows "50 * \<bar>engagedSec (sessionRecord r) + distractedSec (sessionRecord r)
               + sleepySec (sessionRecord r) + awaySec (sessionRecord r)
               - durationSec (sessionRecord r)\<bar>
           \<le> 100 + \<bar>durationSec (sessionRecord r)\<bar>
    \<and> (\<bar>durationSec (sessionRecord r)\<bar> \<le> 100 \<longrightarrow>
         \<bar>engagedSec (sessionRecord r) + distractedSec (sessionRecord r)
            + sleepySec (sessionRecord r) + awaySec (sessionRecord r)
            - durationSec (sessionRecord r)\<bar> \<le> 4)"
proof -
  let ?pc = "getEngagementStats (Some s)"
  let ?D = "(now - sd_startedAt s) div 1000"
  note f = stopSession_fields(1-5) [OF assms(2)]
  have P: "98 \<le> ?pc Engaged + ?pc Distracted + ?pc Sleepy + ?pc Away"
      "?pc Engaged + ?pc Distracted + ?pc Sleepy + ?pc Away \<le> 102"
    using percent_sum [OF assms(1)] by simp_all
  have D: "\<bar>?D\<bar> \<le> 2 ^ 45"
    using assms(3) by (simp only: f(1))
  have "50 * \<bar>secondsOf (?pc Engaged) ?D + secondsOf (?pc Distracted) ?D
             + secondsOf (?pc Sleepy) ?D + secondsOf (?pc Away) ?D - ?D\<bar> \<le> 100 + \<bar>?D\<bar>"
    by (rule seconds_sum [OF P percent_of_state(3) [OF assms(1)]
          percent_of_state(3) [OF assms(1)] percent_of_state(3) [OF assms(1)]
          percent_of_state(3) [OF assms(1)] D])
  then have b: "50 * \<bar>engagedSec (sessionRecord r) + distractedSec (sessionRecord r)
               + sleepySec (sessionRecord r) + awaySec (sessionRecord r)
               - durationSec (sessionRecord r)\<bar>
           \<le> 100 + \<bar>durationSec (sessionRecord r)\<bar>"
    by (simp only: f)
  show ?thesis
  proof (intro conjI impI)
    show "50 * \<bar>engagedSec (sessionRecord r) + distractedSec (sessionRecord r)
               + sleepySec (sessionRecord r) + awaySec (sessionRecord r)
               - durationSec (sessionRecord r)\<bar>
           \<le> 100 + \<bar>durationSec (sessionRecord r)\<bar>"
      by (rule b)
  next
    define x where "x = \<bar>engagedSec (sessionRecord r) + distractedSec (sessionRecord r)
            + sleepySec (sessionRecord r) + awaySec (sessionRecord r)
            - durationSec (sessionRecord r)\<bar>"
    define y where "y = \<bar>durationSec (sessionRecord r)\<bar>"
    assume "\<bar>durationSec (sessionRecord r)\<bar> \<le> 100"
    then have "y \<le> 100" by (simp only: y_def)
    moreover have "50 * x \<le> 100 + y" using b by (simp only: x_def y_def)
    ultimately have "x \<le> 4" by linarith
    then show "\<bar>engagedSec (sessionRecord r) + distractedSec (sessionRecord r)
            + sleepySec (sessionRecord r) + awaySec (sessionRecord r)
            - durationSec (sessionRecord r)\<bar> \<le> 4"
      by (simp only: x_def)
  qed
qed

theorem C5_seconds_sum_bound_witness:
  "timeSeries (sessionOf sixTicks) \<noteq> []
   \<and> stopSession (Some (sessionOf sixTicks)) 6000 True True
       = Inr (projr (stopSession (Some (sessionOf sixTicks)) 6000 True True))
   \<and> durationSec (sessionRecord (projr (stopSession (Some (sessionOf sixTicks)) 6000 True True))) = 6
   \<and> \<bar>engagedSec (sessionRecord (projr (stopSession (Some (sessionOf sixTicks)) 6000 True True)))
      + distractedSec (sessionRecord (projr (stopSession (Some (sessionOf sixTicks)) 6000 True True)))
      + sleepySec (sessionRecord (projr (stopSession (Some (sessionOf sixTicks)) 6000 True True)))
      + awaySec (sessionRecord (projr (stopSession (Some (sessionOf sixTicks)) 6000 True True)))
      - durationSec (sessionRecord (projr (stopSession (Some (sessionOf sixTicks)) 6000 True True)))\<bar>
       \<le> 4"
proof -
  let ?r = "projr (stopSession (Some (sessionOf sixTicks)) 6000 True True)"
  have ne: "timeSeries (sessionOf sixTicks) \<noteq> []"
    by (simp add: sessionOf_def sixTicks_def)
  have r: "stopSession (Some (sessionOf sixTicks)) 6000 True True = Inr ?r"
    by (rule stopSession_projr)
  have "sd_startedAt (sessionOf sixTicks) = 0"
    by (simp add: sessionOf_def)
  then have d: "durationSec (sessionRecord ?r) = 6"
    using stopSession_fields(1) [OF r] by simp
  then have h: "\<bar>durationSec (sessionRecord ?r)\<bar> \<le> 2 ^ 45"
    by simp
  from ne r d C5_seconds_sum_bound [OF ne r h] show ?thesis by simp
qed

text \<open>With no tick at all the four per-state seconds are 0, whatever the duration.\<close>

lemma seconds_of_empty_series:
  assumes "timeSeries s = []" and "stopSession (Some s) now a b = Inr r"
  shows "engagedSec (sessionRecord r) = 0 \<and> distractedSec (sessionRecord r) = 0
       \<and> sleepySec (sessionRecord r) = 0 \<and> awaySec (sessionRecord r) = 0"
  using stopSession_fields(2-5) [OF assms(2)] assms(1)
  by (simp add: getEngagementStats_def secondsOf_def dbl_def js_round_def)

subsection \<open>Nudge cooldown\<close>

text \<open>Only \<open>recordNudge\<close> writes \<open>lastNudgeTime\<close>; a started session has none.\<close>

lemma lastNudgeTime_start:
  "map_option lastNudgeTime (startSession uuid t0 uid cs) = Some None"
  by (simp add: startSession_def)

lemma lastNudgeTime_kept:
  "map_option lastNudgeTime (projr (pauseSession cs)) = map_option lastNudgeTime cs"
  "map_option lastNudgeTime (projr (resumeSession cs)) = map_option lastNudgeTime cs"
  "map_option lastNudgeTime (projr (addMetrics cs m)) = map_option lastNudgeTime cs"
  by (cases cs; simp add: pauseSession_def resumeSession_def addMetrics_def Let_def)+

text \<open>
  C8. With a session in the store whose recorded nudge time, if any, is not the clock
  value 0, \<open>shouldShowNudge now\<close> is true exactly when no nudge has been recorded or
  \<open>now - lastNudgeTime \<ge> 60000\<close>; it is true on a session just started and when the
  store holds no session. After a nudge recorded at a clock value \<open>tr\<close> other than 0
  between two calls at \<open>t1\<close> and \<open>t2\<close> less than 60000 ms apart, the call at \<open>t2\<close>
  returns false, and a call at any \<open>t3\<close> with \<open>t3 - tr \<ge> 60000\<close> returns true.
\<close>

theorem C8_nudge_cooldown:
  assumes "lastNudgeTime s \<noteq> Some 0" and "tr \<noteq> 0"
    and "t1 \<le> tr" and "tr \<le> t2" and "t2 - t1 < 60000" and "60000 \<le> t3 - tr"
  shows "shouldShowNudge (Some s) now
           = (case lastNudgeTime s of None \<Rightarrow> True | Some l \<Rightarrow> 60000 \<le> now - l)
    \<and> shouldShowNudge None now
    \<and> shouldShowNudge (startSession uuid t0 uid cs) now
    \<and> \<not> shouldShowNudge (recordNudge (Some s) tr) t2
    \<and> shouldShowNudge (recordNudge (Some s) tr) t3"
  using assms
  by (auto simp: shouldShowNudge_def recordNudge_def startSession_def NUDGE_COOLDOWN_MS_def
        split: option.splits)

theorem C8_nudge_cooldown_witness:
  "lastNudgeTime (sessionOf []) \<noteq> Some 0 \<and> (5000::real) \<noteq> 0
   \<and> (4000::real) \<le> 5000 \<and> (5000::real) \<le> 6000 \<and> (6000::real) - 4000 < 60000
   \<and> (60000::real) \<le> 65000 - 5000
   \<and> shouldShowNudge (Some (sessionOf [])) 4000
   \<and> \<not> shouldShowNudge (recordNudge (Some (sessionOf [])) 5000) 6000
   \<and> shouldShowNudge (recordNudge (Some (sessionOf [])) 5000) 65000"
proof -
  have h: "lastNudgeTime (sessionOf []) \<noteq> Some 0"
    by (simp add: sessionOf_def)
  have l: "lastNudgeTime (sessionOf []) = None"
    by (simp add: sessionOf_def)
  from h l C8_nudge_cooldown [OF h, of 5000 4000 6000 65000 4000] show ?thesis
    by simp
qed

text \<open>A nudge time of 0 is falsy: after a nudge recorded at clock value 0 the gate stays
  open.\<close>

lemma nudge_recorded_at_zero:
  "shouldShowNudge (recordNudge (Some (sessionOf [])) 0) 1000"
  by (simp add: shouldShowNudge_def recordNudge_def)

end
